theory Spec2Isabelle
  imports Main "HOL-Library.Monad_Syntax"
begin

section \<open>The image manager page: collection store and annotation store\<close>

text \<open>
  The repository holds two variants of one page component: \<^verbatim>\<open>src/unnamed/part_000\<close>
  (array guard in \<^verbatim>\<open>fetchImages\<close>, a retry predicate, a creation counter for
  annotations, no durable annotation storage) and \<^verbatim>\<open>src/next.js\<close> (coloured
  annotations kept in \<^verbatim>\<open>localStorage\<close>, removal and dragging, no guard, no retry
  option, no counter). Where the two variants share a function and differ in its body,
  the function takes the variant as its first argument; where the types differ, the
  \<^verbatim>\<open>next.js\<close> version carries the suffix \<open>_next\<close>.

  JavaScript numbers are modelled as \<open>int\<close>: every number the two files compute is an
  identifier, a counter or a pixel coordinate.
\<close>

datatype source_file = Part000 | NextJs

subsection \<open>Data\<close>

text \<open>
  \<^verbatim>\<open>interface ImageItem { id: number; title: string; url: string }\<close>. The field
  \<^verbatim>\<open>id\<close> is written \<open>item_id\<close>, since \<open>id\<close> is the identity function of HOL.
\<close>

record ImageItem =
  item_id :: int
  title :: string
  url :: string

text \<open>
  The calls the hooks make on the query client and on the HTTP client, in the order
  they are made.
\<close>

datatype call = CancelQueries | DeleteRequest int | InvalidateQueries

text \<open>
  The query client as far as the page uses it: the data cached under the key
  \<^verbatim>\<open>['images']\<close> (\<open>None\<close> is JavaScript's \<^verbatim>\<open>undefined\<close>: nothing fetched yet) and
  the calls received so far.
\<close>

record QueryClient =
  images :: "ImageItem list option"
  trace :: "call list"

text \<open>The value \<^verbatim>\<open>onMutate\<close> returns: \<^verbatim>\<open>{ previous }\<close> (\<^verbatim>\<open>{ prev }\<close> in next.js).\<close>

record Context =
  previous :: "ImageItem list option"

text \<open>
  The outcome of an axios call: the promise rejects with an \<^verbatim>\<open>AxiosError\<close> (network
  failure, timeout after 8000 ms, status outside 2xx) carrying a message, or resolves
  with the response body.
\<close>

datatype 'a response = Rejected string | Resolved 'a

text \<open>
  The two error classes the page can see: \<^verbatim>\<open>getApiError\<close> tells them apart by
  \<^verbatim>\<open>error instanceof AxiosError\<close>.
\<close>

datatype error = AxiosError string | Error string

subsection \<open>Query client operations used by the hooks\<close>

text \<open>
  These four are operations of the query library, not of the repository; they are
  modelled by their documented effect on the cache entry. \<^verbatim>\<open>setQueryData\<close> with an
  updater leaves the entry alone when the updater returns \<^verbatim>\<open>undefined\<close>.
  \<^verbatim>\<open>cancelQueries\<close> and \<^verbatim>\<open>invalidateQueries\<close> do not change the cached data; the
  second marks the entry stale and makes the mounted query fetch again.
\<close>

definition getQueryData :: "QueryClient \<Rightarrow> ImageItem list option" where
  "getQueryData qc = images qc"

definition setQueryData ::
  "(ImageItem list option \<Rightarrow> ImageItem list option) \<Rightarrow> QueryClient \<Rightarrow> QueryClient" where
  "setQueryData updater qc =
     (case updater (images qc) of
        None \<Rightarrow> qc
      | Some data \<Rightarrow> qc\<lparr>images := Some data\<rparr>)"

definition cancelQueries :: "QueryClient \<Rightarrow> QueryClient" where
  "cancelQueries qc = qc\<lparr>trace := trace qc @ [CancelQueries]\<rparr>"

definition invalidateQueries :: "QueryClient \<Rightarrow> QueryClient" where
  "invalidateQueries qc = qc\<lparr>trace := trace qc @ [InvalidateQueries]\<rparr>"

subsection \<open>deleteImage: the optimistic delete of useImages\<close>

text \<open>
  \<^verbatim>\<open>deleteImageRequest\<close>: \<^verbatim>\<open>await api.delete(`/images/${id}`)\<close>; the body of the
  response is dropped.
\<close>

definition deleteImageRequest :: "'a response \<Rightarrow> error + unit" where
  "deleteImageRequest reply =
     (case reply of
        Rejected message \<Rightarrow> Inl (AxiosError message)
      | Resolved _ \<Rightarrow> Inr ())"

text \<open>
  The updater handed to \<^verbatim>\<open>setQueryData\<close> in \<^verbatim>\<open>onMutate\<close>.
  part_000: \<^verbatim>\<open>old => old ? old.filter(img => img.id !== id) : []\<close>;
  next.js: \<^verbatim>\<open>old => old?.filter(i => i.id !== id)\<close>. An array is truthy, also the
  empty one.
\<close>

definition removeImage ::
  "source_file \<Rightarrow> int \<Rightarrow> ImageItem list option \<Rightarrow> ImageItem list option" where
  "removeImage variant ident old =
     (case variant of
        Part000 \<Rightarrow>
          (case old of
             Some items \<Rightarrow> Some (filter (\<lambda>img. item_id img \<noteq> ident) items)
           | None \<Rightarrow> Some [])
      | NextJs \<Rightarrow> map_option (filter (\<lambda>i. item_id i \<noteq> ident)) old)"

text \<open>
  \<^verbatim>\<open>onMutate\<close>: cancel the running fetch, take the snapshot, remove the image from
  the cached list, return the snapshot. The three steps after the \<^verbatim>\<open>await\<close> run
  without interruption.
\<close>

definition onMutate :: "source_file \<Rightarrow> int \<Rightarrow> QueryClient \<Rightarrow> Context \<times> QueryClient" where
  "onMutate variant ident qc =
     (let qc1 = cancelQueries qc;
          prev = getQueryData qc1;
          qc2 = setQueryData (removeImage variant ident) qc1
      in (\<lparr>previous = prev\<rparr>, qc2))"

text \<open>
  \<^verbatim>\<open>onError: (_err, _id, ctx) => { if (ctx?.previous) setQueryData(['images'], ctx.previous) }\<close>.
  The context is \<^verbatim>\<open>undefined\<close> (\<open>None\<close>) when \<^verbatim>\<open>onMutate\<close> did not return.
\<close>

definition onError :: "error \<Rightarrow> int \<Rightarrow> Context option \<Rightarrow> QueryClient \<Rightarrow> QueryClient" where
  "onError err ident ctx qc =
     (case ctx of
        None \<Rightarrow> qc
      | Some c \<Rightarrow>
          (case previous c of
             None \<Rightarrow> qc
           | Some snapshot \<Rightarrow> setQueryData (\<lambda>_. Some snapshot) qc))"

text \<open>\<^verbatim>\<open>onSettled: () => queryClient.invalidateQueries({ queryKey: ['images'] })\<close>.\<close>

definition onSettled :: "QueryClient \<Rightarrow> QueryClient" where
  "onSettled qc = invalidateQueries qc"

text \<open>
  The life of one \<^verbatim>\<open>deleteImage.mutate(id)\<close>, as the query library drives the
  callbacks that \<^verbatim>\<open>useMutation\<close> registers: \<open>start\<close> runs \<^verbatim>\<open>onMutate\<close> and issues
  the request; \<open>settle\<close> runs when the request's outcome arrives, on whatever the
  client has become in the meantime: \<^verbatim>\<open>onError\<close> after a rejection, then
  \<^verbatim>\<open>onSettled\<close> in both cases.
\<close>

definition start :: "source_file \<Rightarrow> int \<Rightarrow> QueryClient \<Rightarrow> Context \<times> QueryClient" where
  "start variant ident qc =
     (let (ctx, qc1) = onMutate variant ident qc
      in (ctx, qc1\<lparr>trace := trace qc1 @ [DeleteRequest ident]\<rparr>))"

definition settle :: "'a response \<Rightarrow> int \<Rightarrow> Context \<Rightarrow> QueryClient \<Rightarrow> QueryClient" where
  "settle reply ident ctx qc =
     (case deleteImageRequest reply of
        Inl err \<Rightarrow> onSettled (onError err ident (Some ctx) qc)
      | Inr _ \<Rightarrow> onSettled qc)"

definition mutate :: "source_file \<Rightarrow> 'a response \<Rightarrow> int \<Rightarrow> QueryClient \<Rightarrow> QueryClient" where
  "mutate variant reply ident qc =
     (let (ctx, qc1) = start variant ident qc in settle reply ident ctx qc1)"

subsection \<open>Several deletes in flight\<close>

text \<open>
  The page with its unsettled deletes: the query client, and for every
  \<^verbatim>\<open>deleteImage.mutate(id)\<close> whose request has not returned yet, the id and the
  context its \<^verbatim>\<open>onMutate\<close> returned (the library keeps them with the running
  mutation). \<^verbatim>\<open>useImages\<close> keeps no record of its own of the ids being deleted, and
  neither file tests anything before it calls \<^verbatim>\<open>deleteImage.mutate\<close> but that an
  image is selected.
\<close>

record Page =
  client :: QueryClient
  unsettled :: "(int \<times> Context) list"

definition request_delete :: "source_file \<Rightarrow> int \<Rightarrow> Page \<Rightarrow> Page" where
  "request_delete variant ident p =
     (let (ctx, qc) = start variant ident (client p)
      in \<lparr>client = qc, unsettled = unsettled p @ [(ident, ctx)]\<rparr>)"

text \<open>The reply to the \<open>k\<close>-th unsettled request arrives.\<close>

definition reply_arrives :: "nat \<Rightarrow> 'a response \<Rightarrow> Page \<Rightarrow> Page" where
  "reply_arrives k reply p =
     (if k < length (unsettled p)
      then (let (ident, ctx) = unsettled p ! k
            in \<lparr>client = settle reply ident ctx (client p),
                unsettled = take k (unsettled p) @ drop (Suc k) (unsettled p)\<rparr>)
      else p)"


subsection \<open>fetchImages and the retry policy of imagesQuery\<close>

text \<open>
  A response body as axios hands it over: any JSON value. TypeScript's annotation
  \<^verbatim>\<open>Promise<ImageItem[]>\<close> checks nothing at run time.
\<close>

datatype json =
    JNull
  | JBool bool
  | JNum int
  | JStr string
  | JArr "json list"
  | JObj "(string \<times> json) list"

text \<open>\<^verbatim>\<open>Array.isArray(data)\<close>.\<close>

fun isArray :: "json \<Rightarrow> bool" where
  "isArray (JArr _) = True"
| "isArray _ = False"

text \<open>
  A value of the shape of \<^verbatim>\<open>interface ImageItem\<close>: an object whose \<^verbatim>\<open>id\<close> is a
  number and whose \<^verbatim>\<open>title\<close> and \<^verbatim>\<open>url\<close> are strings. Neither file tests it; the
  definition only says what the interface declares.
\<close>

fun isNumber :: "json option \<Rightarrow> bool" where
  "isNumber (Some (JNum _)) = True"
| "isNumber _ = False"

fun isString :: "json option \<Rightarrow> bool" where
  "isString (Some (JStr _)) = True"
| "isString _ = False"

fun ImageItem_shaped :: "json \<Rightarrow> bool" where
  "ImageItem_shaped (JObj members) =
     (isNumber (map_of members ''id'') \<and> isString (map_of members ''title'')
      \<and> isString (map_of members ''url''))"
| "ImageItem_shaped _ = False"

text \<open>
  \<^verbatim>\<open>fetchImages\<close>: \<^verbatim>\<open>const { data } = await api.get('/images')\<close>; a rejection of the
  request propagates. part_000 then throws \<^verbatim>\<open>new Error('Images response is not an array')\<close>
  unless \<^verbatim>\<open>Array.isArray(data)\<close>, and returns \<^verbatim>\<open>data\<close>; next.js returns \<^verbatim>\<open>data\<close>
  without a test.
\<close>

definition fetchImages :: "source_file \<Rightarrow> json response \<Rightarrow> error + json" where
  "fetchImages variant reply =
     (case reply of
        Rejected message \<Rightarrow> Inl (AxiosError message)
      | Resolved data \<Rightarrow>
          (case variant of
             Part000 \<Rightarrow>
               (if \<not> isArray data then Inl (Error ''Images response is not an array'')
                else Inr data)
           | NextJs \<Rightarrow> Inr data))"

text \<open>
  part_000, \<^verbatim>\<open>retry: (count) => count < 2\<close>. The library calls the predicate with
  the number of failures before the current one and with the error; the predicate
  takes the first argument only.
\<close>

definition retry :: "nat \<Rightarrow> error \<Rightarrow> bool" where
  "retry count err = (count < 2)"

text \<open>
  One load of the query, as the query library runs it: call the query function; when
  it fails, ask the retry predicate with the failure count so far and the error, and
  either count the failure and call again or fail with that error. The replies of the
  server to the successive calls are the list; the result is paired with the number of
  calls of the query function. \<open>None\<close>: the server has not replied to the last call.
  (next.js sets no \<^verbatim>\<open>retry\<close> option and so runs under the library's default, which is
  not part of the repository.)
\<close>

fun retryer ::
  "(nat \<Rightarrow> error \<Rightarrow> bool) \<Rightarrow> (json response \<Rightarrow> error + json) \<Rightarrow> nat \<Rightarrow> json response list
     \<Rightarrow> ((error + json) \<times> nat) option" where
  "retryer shouldRetry queryFn failureCount [] = None"
| "retryer shouldRetry queryFn failureCount (reply # replies) =
     (case queryFn reply of
        Inr data \<Rightarrow> Some (Inr data, Suc failureCount)
      | Inl err \<Rightarrow>
          (if shouldRetry failureCount err
           then retryer shouldRetry queryFn (Suc failureCount) replies
           else Some (Inl err, Suc failureCount)))"

text \<open>\<^verbatim>\<open>imagesQuery\<close> of part_000: \<^verbatim>\<open>queryFn: fetchImages\<close> under \<^verbatim>\<open>retry\<close>.\<close>

definition imagesQuery :: "json response list \<Rightarrow> ((error + json) \<times> nat) option" where
  "imagesQuery replies = retryer retry (fetchImages Part000) 0 replies"


subsection \<open>Annotations\<close>

text \<open>
  \<^verbatim>\<open>interface Annotation { id: string; x: number; y: number; width: number; height: number }\<close>
  in part_000; next.js adds \<^verbatim>\<open>color: string\<close>. The fields carry the prefix \<open>ann_\<close>:
  \<open>x\<close> and \<open>y\<close> as constants would capture the variables of every later statement.
\<close>

record Annotation =
  ann_id :: string
  ann_x :: int
  ann_y :: int
  ann_width :: int
  ann_height :: int

record Annotation_next = Annotation +
  ann_color :: string

subsubsection \<open>useAnnotations of part_000\<close>

text \<open>
  The state of the hook: \<^verbatim>\<open>useState<Annotation[]>([])\<close> and \<^verbatim>\<open>useRef(0)\<close>. There is
  no other state and no storage: what the hook holds is lost when the page is left.
\<close>

record AnnotationsHook =
  annotations :: "Annotation list"
  counterRef :: nat

definition useAnnotations :: AnnotationsHook where
  "useAnnotations = \<lparr>annotations = [], counterRef = 0\<rparr>"

text \<open>
  \<^verbatim>\<open>addAnnotation\<close>: \<^verbatim>\<open>counterRef.current += 1; const offset = counterRef.current * 6\<close>,
  then the new annotation is appended. Its id is what \<^verbatim>\<open>crypto.randomUUID()\<close> returned,
  an input from the platform.
\<close>

definition addAnnotation :: "string \<Rightarrow> AnnotationsHook \<Rightarrow> AnnotationsHook" where
  "addAnnotation uuid h =
     (let current = counterRef h + 1;
          offset = int current * 6
      in \<lparr>annotations = annotations h @
            [\<lparr>ann_id = uuid, ann_x = 50 + offset, ann_y = 50 + offset,
              ann_width = 160, ann_height = 100\<rparr>],
          counterRef = current\<rparr>)"

subsubsection \<open>useAnnotations of next.js\<close>

text \<open>
  The three state updaters. \<^verbatim>\<open>addAnnotation\<close> appends an annotation at the fixed place
  (60, 60); its id is the text of \<^verbatim>\<open>`${Date.now()}-${Math.random()}`\<close>, an input from
  the platform. \<^verbatim>\<open>removeAnnotation\<close> filters by id. \<^verbatim>\<open>onDragEnd\<close> of the rectangle
  drawn for the annotation with the given id maps over the list and replaces
  \<^verbatim>\<open>x\<close> and \<^verbatim>\<open>y\<close> of the entries with that id by the position of the shape.
\<close>

definition addAnnotation_next ::
  "string \<Rightarrow> string \<Rightarrow> Annotation_next list \<Rightarrow> Annotation_next list" where
  "addAnnotation_next fresh colour prev =
     prev @ [\<lparr>ann_id = fresh, ann_x = 60, ann_y = 60, ann_width = 160, ann_height = 100,
              ann_color = colour\<rparr>]"

definition removeAnnotation :: "string \<Rightarrow> Annotation_next list \<Rightarrow> Annotation_next list" where
  "removeAnnotation ident prev = filter (\<lambda>a. ann_id a \<noteq> ident) prev"

definition onDragEnd ::
  "string \<Rightarrow> int \<Rightarrow> int \<Rightarrow> Annotation_next list \<Rightarrow> Annotation_next list" where
  "onDragEnd ident newX newY prev =
     map (\<lambda>p. if ann_id p = ident then p\<lparr>ann_x := newX, ann_y := newY\<rparr> else p) prev"

text \<open>
  The text of a number in a template literal, for the integers: decimal digits, with
  a minus sign in front of a negative one.
\<close>

definition digit :: "nat \<Rightarrow> char" where
  "digit n = ''0123456789abcdef'' ! n"

fun digits :: "nat \<Rightarrow> string" where
  "digits n = (if n < 10 then [digit n] else digits (n div 10) @ [digit (n mod 10)])"

declare digits.simps [simp del]

definition Number_toString :: "int \<Rightarrow> string" where
  "Number_toString n = (if n < 0 then CHR ''-'' # digits (nat (- n)) else digits (nat n))"

text \<open>The key \<^verbatim>\<open>`ann_${imageId}`\<close>.\<close>

definition storage_key :: "int \<Rightarrow> string" where
  "storage_key imageId = ''ann_'' @ Number_toString imageId"

text \<open>
  The hook with the storage it writes: the state \<^verbatim>\<open>annotations\<close> and the contents of
  \<^verbatim>\<open>localStorage\<close> (\<^verbatim>\<open>getItem\<close> answers \<^verbatim>\<open>null\<close>, here \<open>None\<close>, for a key that is
  not there). The storage is taken to have room for what is written.
\<close>

record AnnotationStore =
  annotations_next :: "Annotation_next list"
  localStorage :: "string \<rightharpoonup> string"

text \<open>
  \<^verbatim>\<open>JSON.parse\<close> and \<^verbatim>\<open>JSON.stringify\<close> belong to the platform; the effects take them
  as the arguments \<open>parse\<close> and \<open>stringify\<close>. \<open>parse\<close> answers \<open>Inl\<close> where
  \<^verbatim>\<open>JSON.parse\<close> throws.

  The first effect, \<^verbatim>\<open>const saved = localStorage.getItem(`ann_${imageId}`);
  if (saved) setAnnotations(JSON.parse(saved))\<close>: \<open>Inr None\<close> when the state is left as
  it is (no entry, or the empty text, which is falsy), \<open>Inr (Some v)\<close> when the state is
  set to \<open>v\<close>, \<open>Inl e\<close> when \<^verbatim>\<open>JSON.parse\<close> throws \<open>e\<close>: the effect has no handler.
\<close>

definition loadEffect ::
  "(string \<Rightarrow> 'e + Annotation_next list) \<Rightarrow> int \<Rightarrow> (string \<rightharpoonup> string)
     \<Rightarrow> 'e + Annotation_next list option" where
  "loadEffect parse imageId storage =
     (case storage (storage_key imageId) of
        None \<Rightarrow> Inr None
      | Some saved \<Rightarrow>
          (if saved = [] then Inr None
           else (case parse saved of
                   Inl e \<Rightarrow> Inl e
                 | Inr v \<Rightarrow> Inr (Some v))))"

text \<open>
  The second effect,
  \<^verbatim>\<open>localStorage.setItem(`ann_${imageId}`, JSON.stringify(annotations))\<close>.
\<close>

definition persistEffect ::
  "(Annotation_next list \<Rightarrow> string) \<Rightarrow> int \<Rightarrow> Annotation_next list \<Rightarrow> (string \<rightharpoonup> string)
     \<Rightarrow> (string \<rightharpoonup> string)" where
  "persistEffect stringify imageId anns storage =
     storage(storage_key imageId \<mapsto> stringify anns)"

text \<open>
  Mounting the hook for an image: the state starts as \<^verbatim>\<open>[]\<close>; after the first render
  the two effects run in the order they are written, the second still on the state
  \<^verbatim>\<open>[]\<close>; when the first effect has set the state, the render that follows runs the
  second effect again, now on the loaded annotations. An error thrown by the first
  effect ends the mount.
\<close>

definition useAnnotations_next ::
  "(string \<Rightarrow> 'e + Annotation_next list) \<Rightarrow> (Annotation_next list \<Rightarrow> string) \<Rightarrow> int
     \<Rightarrow> (string \<rightharpoonup> string) \<Rightarrow> 'e + AnnotationStore" where
  "useAnnotations_next parse stringify imageId storage =
     (case loadEffect parse imageId storage of
        Inl e \<Rightarrow> Inl e
      | Inr None \<Rightarrow>
          Inr \<lparr>annotations_next = [],
               localStorage = persistEffect stringify imageId [] storage\<rparr>
      | Inr (Some v) \<Rightarrow>
          Inr \<lparr>annotations_next = v,
               localStorage = persistEffect stringify imageId v
                 (persistEffect stringify imageId [] storage)\<rparr>)"

text \<open>
  The mounted hook is rendered with another image id. The page draws the canvas,
  without a key, for the first image of the list, so when that image changes the same
  hook goes on with the new id and the state it holds. Both effects have the id among
  their dependencies and run again in the order they are written: the first reads the
  entry of the new id, the second writes the list still in the state under the new
  id; when the first effect has set the state, the render that follows runs the
  second effect on the loaded list. An error thrown by the first effect ends the
  render.
\<close>

definition imageId_changes ::
  "(string \<Rightarrow> 'e + Annotation_next list) \<Rightarrow> (Annotation_next list \<Rightarrow> string) \<Rightarrow> int
     \<Rightarrow> AnnotationStore \<Rightarrow> 'e + AnnotationStore" where
  "imageId_changes parse stringify imageId st =
     (case loadEffect parse imageId (localStorage st) of
        Inl e \<Rightarrow> Inl e
      | Inr None \<Rightarrow>
          Inr \<lparr>annotations_next = annotations_next st,
               localStorage = persistEffect stringify imageId (annotations_next st)
                 (localStorage st)\<rparr>
      | Inr (Some v) \<Rightarrow>
          Inr \<lparr>annotations_next = v,
               localStorage = persistEffect stringify imageId v
                 (persistEffect stringify imageId (annotations_next st) (localStorage st))\<rparr>)"

text \<open>
  \<^verbatim>\<open>setAnnotations(updater)\<close> on the mounted hook: the state becomes the updater's
  result, a new array, so the render that follows runs the second effect.
\<close>

definition setAnnotations ::
  "(Annotation_next list \<Rightarrow> string) \<Rightarrow> int \<Rightarrow> (Annotation_next list \<Rightarrow> Annotation_next list)
     \<Rightarrow> AnnotationStore \<Rightarrow> AnnotationStore" where
  "setAnnotations stringify imageId updater st =
     (let next = updater (annotations_next st)
      in \<lparr>annotations_next = next,
          localStorage = persistEffect stringify imageId next (localStorage st)\<rparr>)"

text \<open>
  What the canvas can ask of the hook: the button adds (with the id the platform
  produced and the selected colour), a drag ends, a double click removes.
\<close>

datatype intent =
    AddAnnotation string string
  | DragAnnotation string int int
  | DismissAnnotation string

fun apply_intent :: "intent \<Rightarrow> Annotation_next list \<Rightarrow> Annotation_next list" where
  "apply_intent (AddAnnotation fresh colour) = addAnnotation_next fresh colour"
| "apply_intent (DragAnnotation ident newX newY) = onDragEnd ident newX newY"
| "apply_intent (DismissAnnotation ident) = removeAnnotation ident"

definition dispatch ::
  "(Annotation_next list \<Rightarrow> string) \<Rightarrow> int \<Rightarrow> AnnotationStore \<Rightarrow> intent \<Rightarrow> AnnotationStore" where
  "dispatch stringify imageId st i = setAnnotations stringify imageId (apply_intent i) st"


subsection \<open>The JSON texts of annotation lists\<close>

text \<open>
  An instance of the two platform functions, to run the effects on stored texts:
  \<open>JSON_stringify\<close> writes a list of annotations the way \<^verbatim>\<open>JSON.stringify\<close> writes an
  array of such objects (no white space, the properties in the order of the object
  literal, strings quoted with the escapes of ECMAScript), and \<open>JSON_parse\<close> reads the
  texts of that shape. On these texts and on what is left of them when they are cut
  short it answers as \<^verbatim>\<open>JSON.parse\<close> does. Other texts, among them JSON texts of
  other shapes, which \<^verbatim>\<open>JSON.parse\<close> would turn into values that are no lists of
  annotations, are refused; no statement below is about them.
\<close>

definition dq :: char where
  "dq = CHR 0x22"

definition bs :: char where
  "bs = CHR 0x5C"

definition escape :: "char \<Rightarrow> string" where
  "escape c =
     (if c = dq then [bs, dq]
      else if c = bs then [bs, bs]
      else if c = CHR 0x08 then [bs, CHR ''b'']
      else if c = CHR 0x09 then [bs, CHR ''t'']
      else if c = CHR 0x0A then [bs, CHR ''n'']
      else if c = CHR 0x0C then [bs, CHR ''f'']
      else if c = CHR 0x0D then [bs, CHR ''r'']
      else if (of_char c :: nat) < 32
        then [bs, CHR ''u'', CHR ''0'', CHR ''0'', digit (of_char c div 16), digit (of_char c mod 16)]
      else [c])"

definition QuoteJSONString :: "string \<Rightarrow> string" where
  "QuoteJSONString s = dq # concat (map escape s) @ [dq]"

definition entry :: "string \<Rightarrow> string \<Rightarrow> string" where
  "entry key v = QuoteJSONString key @ CHR '':'' # v"

definition stringify_annotation :: "Annotation_next \<Rightarrow> string" where
  "stringify_annotation a =
     ''{'' @ entry ''id'' (QuoteJSONString (ann_id a))
     @ '','' @ entry ''x'' (Number_toString (ann_x a))
     @ '','' @ entry ''y'' (Number_toString (ann_y a))
     @ '','' @ entry ''width'' (Number_toString (ann_width a))
     @ '','' @ entry ''height'' (Number_toString (ann_height a))
     @ '','' @ entry ''color'' (QuoteJSONString (ann_color a)) @ ''}''"

fun join :: "string list \<Rightarrow> string" where
  "join [] = []"
| "join [x] = x"
| "join (x # y # ys) = x @ CHR '','' # join (y # ys)"

definition JSON_stringify :: "Annotation_next list \<Rightarrow> string" where
  "JSON_stringify anns = ''['' @ join (map stringify_annotation anns) @ '']''"

datatype syntax_error = SyntaxError

fun expect :: "string \<Rightarrow> string \<Rightarrow> string option" where
  "expect [] s = Some s"
| "expect (p # ps) [] = None"
| "expect (p # ps) (c # cs) = (if p = c then expect ps cs else None)"

definition digit_value :: "char \<Rightarrow> nat option" where
  "digit_value = map_of
     [(CHR ''0'', 0), (CHR ''1'', 1), (CHR ''2'', 2), (CHR ''3'', 3), (CHR ''4'', 4),
      (CHR ''5'', 5), (CHR ''6'', 6), (CHR ''7'', 7), (CHR ''8'', 8), (CHR ''9'', 9)]"

definition hex_value :: "char \<Rightarrow> nat option" where
  "hex_value c =
     (case digit_value c of
        Some d \<Rightarrow> Some d
      | None \<Rightarrow> map_of
         [(CHR ''a'', 10), (CHR ''b'', 11), (CHR ''c'', 12), (CHR ''d'', 13), (CHR ''e'', 14),
          (CHR ''f'', 15), (CHR ''A'', 10), (CHR ''B'', 11), (CHR ''C'', 12), (CHR ''D'', 13),
          (CHR ''E'', 14), (CHR ''F'', 15)] c)"

fun parse_digits :: "nat \<Rightarrow> string \<Rightarrow> nat \<times> string" where
  "parse_digits acc [] = (acc, [])"
| "parse_digits acc (c # cs) =
     (case digit_value c of
        Some d \<Rightarrow> parse_digits (10 * acc + d) cs
      | None \<Rightarrow> (acc, c # cs))"

text \<open>A JSON integer: a single \<open>0\<close>, or digits that do not start with \<open>0\<close>.\<close>

definition parse_nat :: "string \<Rightarrow> (nat \<times> string) option" where
  "parse_nat s =
     (case s of
        [] \<Rightarrow> None
      | c # cs \<Rightarrow>
          (case digit_value c of
             None \<Rightarrow> None
           | Some d \<Rightarrow>
               if d = 0
               then (case cs of
                       [] \<Rightarrow> Some (0, cs)
                     | c' # _ \<Rightarrow> if digit_value c' = None then Some (0, cs) else None)
               else Some (parse_digits d cs)))"

definition parse_number :: "string \<Rightarrow> (int \<times> string) option" where
  "parse_number s =
     (case s of
        [] \<Rightarrow> None
      | c # cs \<Rightarrow>
          if c = CHR ''-'' then map_option (\<lambda>(n, r). (- int n, r)) (parse_nat cs)
          else map_option (\<lambda>(n, r). (int n, r)) (parse_nat s))"

definition unescape :: "char \<Rightarrow> char option" where
  "unescape = map_of
     [(dq, dq), (bs, bs), (CHR ''/'', CHR ''/''), (CHR ''b'', CHR 0x08), (CHR ''t'', CHR 0x09),
      (CHR ''n'', CHR 0x0A), (CHR ''f'', CHR 0x0C), (CHR ''r'', CHR 0x0D)]"

text \<open>\<^verbatim>\<open>\u00XX\<close>: the escapes of the characters that fit the type \<open>char\<close>.\<close>

definition hex4 :: "char \<Rightarrow> char \<Rightarrow> char \<Rightarrow> char \<Rightarrow> char option" where
  "hex4 a b c d =
     (case (hex_value a, hex_value b, hex_value c, hex_value d) of
        (Some 0, Some 0, Some h, Some l) \<Rightarrow> Some (char_of (16 * h + l))
      | _ \<Rightarrow> None)"

text \<open>The characters of a string up to its closing quote.\<close>

fun parse_chars :: "string \<Rightarrow> (string \<times> string) option" where
  "parse_chars [] = None"
| "parse_chars (c # cs) =
     (if c = dq then Some ([], cs)
      else if c = bs then
        (case cs of
           [] \<Rightarrow> None
         | e # cs' \<Rightarrow>
             if e = CHR ''u'' then
               (case cs' of
                  h1 # h2 # h3 # h4 # cs'' \<Rightarrow>
                    (case hex4 h1 h2 h3 h4 of
                       None \<Rightarrow> None
                     | Some ch \<Rightarrow> map_option (\<lambda>(v, r). (ch # v, r)) (parse_chars cs''))
                | _ \<Rightarrow> None)
             else
               (case unescape e of
                  None \<Rightarrow> None
                | Some ch \<Rightarrow> map_option (\<lambda>(v, r). (ch # v, r)) (parse_chars cs')))
      else if (of_char c :: nat) < 32 then None
      else map_option (\<lambda>(v, r). (c # v, r)) (parse_chars cs))"

definition parse_string :: "string \<Rightarrow> (string \<times> string) option" where
  "parse_string s =
     (case s of
        [] \<Rightarrow> None
      | c # cs \<Rightarrow> if c = dq then parse_chars cs else None)"

definition parse_annotation :: "string \<Rightarrow> (Annotation_next \<times> string) option" where
  "parse_annotation s = do {
     r \<leftarrow> expect (''{'' @ entry ''id'' []) s;
     (i, r) \<leftarrow> parse_string r;
     r \<leftarrow> expect ('','' @ entry ''x'' []) r;
     (x, r) \<leftarrow> parse_number r;
     r \<leftarrow> expect ('','' @ entry ''y'' []) r;
     (y, r) \<leftarrow> parse_number r;
     r \<leftarrow> expect ('','' @ entry ''width'' []) r;
     (w, r) \<leftarrow> parse_number r;
     r \<leftarrow> expect ('','' @ entry ''height'' []) r;
     (h, r) \<leftarrow> parse_number r;
     r \<leftarrow> expect ('','' @ entry ''color'' []) r;
     (c, r) \<leftarrow> parse_string r;
     r \<leftarrow> expect ''}'' r;
     Some (\<lparr>ann_id = i, ann_x = x, ann_y = y, ann_width = w, ann_height = h, ann_color = c\<rparr>, r)
   }"

text \<open>Every parser leaves a suffix of its input; an annotation takes at least one character.\<close>

lemma expect_length: "expect p s = Some r \<Longrightarrow> length r \<le> length s"
  by (induction p s rule: expect.induct) (auto split: if_splits)

lemma expect_Cons_length: "expect (c # p) s = Some r \<Longrightarrow> length r < length s"
  by (cases s) (auto split: if_splits dest: expect_length)

lemma parse_digits_length: "parse_digits acc s = (n, r) \<Longrightarrow> length r \<le> length s"
  by (induction acc s rule: parse_digits.induct) (auto split: option.splits)

lemma parse_nat_length: "parse_nat s = Some (n, r) \<Longrightarrow> length r \<le> length s"
  by (auto simp: parse_nat_def split: list.splits option.splits if_splits
      dest!: parse_digits_length)

lemma parse_number_length: "parse_number s = Some (n, r) \<Longrightarrow> length r \<le> length s"
  by (auto simp: parse_number_def split: list.splits if_splits dest!: parse_nat_length)

lemma parse_chars_length: "parse_chars s = Some (v, r) \<Longrightarrow> length r < length s"
proof (induction s arbitrary: v r rule: parse_chars.induct)
  case 1
  then show ?case by simp
next
  case (2 c cs)
  show ?case
    using "2.prems" "2.IH"
    by (fastforce split: if_splits list.splits option.splits)
qed

lemma parse_string_length: "parse_string s = Some (v, r) \<Longrightarrow> length r \<le> length s"
  by (auto simp: parse_string_def split: list.splits if_splits dest!: parse_chars_length)

lemma parse_annotation_length:
  assumes "parse_annotation s = Some (a, r)"
  shows "length r < length s"
proof -
  from assms obtain r1 where
    "expect (''{'' @ entry ''id'' []) s = Some r1" "length r \<le> length r1"
    unfolding parse_annotation_def
    by (auto split: bind_splits dest!: expect_length parse_string_length parse_number_length)
  then show ?thesis
    using expect_Cons_length [of "CHR ''{''" "entry ''id'' []" s r1] by simp
qed

text \<open>The annotations of an array after the first one, up to the closing bracket.\<close>

function parse_elements :: "string \<Rightarrow> (Annotation_next list \<times> string) option" where
  "parse_elements s =
     (case parse_annotation s of
        None \<Rightarrow> None
      | Some (a, r) \<Rightarrow>
          (case r of
             [] \<Rightarrow> None
           | c # r' \<Rightarrow>
               if c = CHR '']'' then Some ([a], r')
               else if c = CHR '','' then
                 map_option (\<lambda>(as, r''). (a # as, r'')) (parse_elements r')
               else None))"
  by pat_completeness auto
termination
  by (relation "measure length") (auto dest!: parse_annotation_length)

declare parse_elements.simps [simp del]

definition JSON_parse :: "string \<Rightarrow> syntax_error + Annotation_next list" where
  "JSON_parse s =
     (if s = ''[]'' then Inr []
      else case s of
        [] \<Rightarrow> Inl SyntaxError
      | c # r \<Rightarrow>
          if c = CHR ''['' then
            (case parse_elements r of
               Some (anns, []) \<Rightarrow> Inr anns
             | _ \<Rightarrow> Inl SyntaxError)
          else Inl SyntaxError)"


text \<open>A text at which the digits of a number end: empty, or starting with no digit.\<close>

definition stops :: "string \<Rightarrow> bool" where
  "stops r = (case r of [] \<Rightarrow> True | c # _ \<Rightarrow> digit_value c = None)"

section \<open>Properties of the collection store\<close>

lemma images_cancelQueries: "images (cancelQueries qc) = images qc"
  by (simp add: cancelQueries_def)

lemma images_invalidateQueries: "images (invalidateQueries qc) = images qc"
  by (simp add: invalidateQueries_def)

lemma trace_setQueryData: "trace (setQueryData updater qc) = trace qc"
  by (simp add: setQueryData_def split: option.splits)

lemma images_setQueryData_const: "images (setQueryData (\<lambda>_. Some snapshot) qc) = Some snapshot"
  by (simp add: setQueryData_def)

lemma previous_onMutate: "previous (fst (onMutate variant ident qc)) = images qc"
  by (simp add: onMutate_def Let_def getQueryData_def images_cancelQueries)

lemma images_onMutate:
  "images qc = Some items \<Longrightarrow>
   images (snd (onMutate variant ident qc)) = Some (filter (\<lambda>img. item_id img \<noteq> ident) items)"
  by (cases variant)
     (simp_all add: onMutate_def Let_def setQueryData_def removeImage_def images_cancelQueries)

lemma trace_onMutate: "trace (snd (onMutate variant ident qc)) = trace qc @ [CancelQueries]"
  by (simp add: onMutate_def Let_def trace_setQueryData cancelQueries_def)

lemma trace_onError: "trace (onError err ident ctx qc) = trace qc"
  by (simp add: onError_def trace_setQueryData split: option.splits)

lemma images_onError_snapshot:
  "previous c = Some snapshot \<Longrightarrow> images (onError err ident (Some c) qc) = Some snapshot"
  by (simp add: onError_def images_setQueryData_const)

text \<open>
  C1. When the delete request fails, the rollback puts back exactly the list that was
  captured before the optimistic removal: same elements, same order. This holds for
  the rollback step on any state the client has reached while the request was in
  flight, and so for the whole failed delete, in both variants. (The snapshot exists
  whenever the page offers a delete: the grid is rendered only once the list is loaded.)
\<close>

theorem rollback_restores_snapshot:
  assumes "images qc = Some items"
  shows "images (onError err ident (Some (fst (onMutate variant ident qc))) qc_mid) = Some items
       \<and> images (settle (Rejected message) ident (fst (start variant ident qc)) qc_mid) = Some items
       \<and> images (mutate variant (Rejected message) ident qc) = Some items"
proof -
  have prev: "previous (fst (onMutate variant ident qc)) = Some items"
    using assms by (simp add: previous_onMutate)
  have rolled: "images (onError err ident (Some (fst (onMutate variant ident qc))) qc_mid) = Some items"
    using prev by (rule images_onError_snapshot)
  have ctx: "fst (start variant ident qc) = fst (onMutate variant ident qc)"
    by (simp add: start_def split_beta)
  have settled: "images (settle (Rejected message) ident (fst (start variant ident qc)) q) = Some items"
    for q
    using prev
    by (simp add: settle_def deleteImageRequest_def onSettled_def images_invalidateQueries
        ctx images_onError_snapshot)
  have whole: "images (mutate variant (Rejected message) ident qc) = Some items"
    by (simp add: mutate_def split_beta settled)
  from rolled settled [of qc_mid] whole show ?thesis by (intro conjI)
qed

theorem rollback_restores_snapshot_witness:
  "images (snd (start Part000 2
      \<lparr>images = Some [\<lparr>item_id = 1, title = ''a'', url = ''u1''\<rparr>,
                      \<lparr>item_id = 2, title = ''b'', url = ''u2''\<rparr>,
                      \<lparr>item_id = 3, title = ''c'', url = ''u3''\<rparr>], trace = []\<rparr>))
     = Some [\<lparr>item_id = 1, title = ''a'', url = ''u1''\<rparr>, \<lparr>item_id = 3, title = ''c'', url = ''u3''\<rparr>]
   \<and> images (mutate Part000 (Rejected ''Network Error'' :: unit response) 2
      \<lparr>images = Some [\<lparr>item_id = 1, title = ''a'', url = ''u1''\<rparr>,
                      \<lparr>item_id = 2, title = ''b'', url = ''u2''\<rparr>,
                      \<lparr>item_id = 3, title = ''c'', url = ''u3''\<rparr>], trace = []\<rparr>)
     = Some [\<lparr>item_id = 1, title = ''a'', url = ''u1''\<rparr>,
             \<lparr>item_id = 2, title = ''b'', url = ''u2''\<rparr>,
             \<lparr>item_id = 3, title = ''c'', url = ''u3''\<rparr>]"
proof -
  let ?items = "[\<lparr>item_id = 1, title = ''a'', url = ''u1''\<rparr>,
                 \<lparr>item_id = 2, title = ''b'', url = ''u2''\<rparr>,
                 \<lparr>item_id = 3, title = ''c'', url = ''u3''\<rparr>]"
  let ?qc = "\<lparr>images = Some ?items, trace = []\<rparr>"
  have loaded: "images ?qc = Some ?items" by simp
  have removed: "images (snd (start Part000 2 ?qc))
      = Some [\<lparr>item_id = 1, title = ''a'', url = ''u1''\<rparr>, \<lparr>item_id = 3, title = ''c'', url = ''u3''\<rparr>]"
    by (simp add: start_def split_beta images_onMutate [OF loaded])
  note rollback_restores_snapshot [OF loaded, where variant = Part000 and ident = 2
      and message = "''Network Error''" and 'a = unit and err = "Error []" and qc_mid = ?qc]
  then have "images (mutate Part000 (Rejected ''Network Error'' :: unit response) 2 ?qc) = Some ?items"
    by (rule conjunct2 [THEN conjunct2])
  with removed show ?thesis by (rule conjI)
qed

text \<open>
  C2. Every delete, whether its request succeeds or fails, ends with exactly one
  invalidation of the image list, which is what makes the mounted query load again.
  Whatever the client has become while the request was in flight, settling adds one
  \<^verbatim>\<open>invalidateQueries\<close> to its calls and nothing else; a whole delete adds the
  cancellation, the request and, last, that one invalidation.
\<close>

theorem settlement_always_refetches:
  "trace (settle reply ident ctx qc_mid) = trace qc_mid @ [InvalidateQueries]
   \<and> trace (mutate variant reply ident qc)
     = trace qc @ [CancelQueries, DeleteRequest ident, InvalidateQueries]
   \<and> count_list (trace (mutate variant reply ident qc)) InvalidateQueries
     = count_list (trace qc) InvalidateQueries + 1"
proof -
  have settled: "trace (settle reply ident c q) = trace q @ [InvalidateQueries]" for c q
    by (cases reply)
       (simp_all add: settle_def deleteImageRequest_def onSettled_def invalidateQueries_def
          trace_onError)
  have "trace (mutate variant reply ident qc)
     = trace qc @ [CancelQueries, DeleteRequest ident, InvalidateQueries]"
    by (simp add: mutate_def start_def split_beta settled trace_onMutate)
  with settled [of ctx qc_mid] show ?thesis by simp
qed

lemma start_eq:
  "start variant ident qc =
     (\<lparr>previous = images qc\<rparr>,
      (snd (onMutate variant ident qc))\<lparr>trace := trace qc @ [CancelQueries, DeleteRequest ident]\<rparr>)"
  by (simp add: start_def split_beta onMutate_def Let_def getQueryData_def images_cancelQueries
      trace_setQueryData cancelQueries_def)

text \<open>
  C9 as stated fails: a second delete for an id whose first delete is unsettled is
  started like any other. On the list 1, 2, 3, two deletes of image 2 leave two
  unsettled sequences for 2 and two requests; when both requests then fail, in the
  order they were sent, the second rollback puts back the list without image 2.
\<close>

theorem second_delete_not_rejected_counterexample:
  "map fst (unsettled (request_delete Part000 2 (request_delete Part000 2
      \<lparr>client = \<lparr>images = Some [\<lparr>item_id = 1, title = ''a'', url = ''u1''\<rparr>,
                                   \<lparr>item_id = 2, title = ''b'', url = ''u2''\<rparr>,
                                   \<lparr>item_id = 3, title = ''c'', url = ''u3''\<rparr>], trace = []\<rparr>,
        unsettled = []\<rparr>))) = [2, 2]
   \<and> trace (client (request_delete Part000 2 (request_delete Part000 2
      \<lparr>client = \<lparr>images = Some [\<lparr>item_id = 1, title = ''a'', url = ''u1''\<rparr>,
                                   \<lparr>item_id = 2, title = ''b'', url = ''u2''\<rparr>,
                                   \<lparr>item_id = 3, title = ''c'', url = ''u3''\<rparr>], trace = []\<rparr>,
        unsettled = []\<rparr>)))
     = [CancelQueries, DeleteRequest 2, CancelQueries, DeleteRequest 2]
   \<and> images (client
       (reply_arrives 0 (Rejected ''timeout'' :: unit response)
         (reply_arrives 0 (Rejected ''timeout'' :: unit response)
           (request_delete Part000 2 (request_delete Part000 2
      \<lparr>client = \<lparr>images = Some [\<lparr>item_id = 1, title = ''a'', url = ''u1''\<rparr>,
                                   \<lparr>item_id = 2, title = ''b'', url = ''u2''\<rparr>,
                                   \<lparr>item_id = 3, title = ''c'', url = ''u3''\<rparr>], trace = []\<rparr>,
        unsettled = []\<rparr>)))))
     = Some [\<lparr>item_id = 1, title = ''a'', url = ''u1''\<rparr>, \<lparr>item_id = 3, title = ''c'', url = ''u3''\<rparr>]"
  by (simp add: request_delete_def reply_arrives_def start_eq onMutate_def Let_def
      setQueryData_def removeImage_def cancelQueries_def getQueryData_def settle_def
      deleteImageRequest_def onSettled_def invalidateQueries_def onError_def)

text \<open>
  C9, amended. A delete is never rejected and never queued: whatever deletes are
  unsettled, for the same id or another, \<^verbatim>\<open>deleteImage.mutate(id)\<close> at once cancels
  the running fetch, takes its own snapshot of the list as it is now, removes the id
  from the list, sends its own request and joins the unsettled sequences, so one more
  sequence for that id is active.
\<close>

theorem delete_always_starts:
  "unsettled (request_delete variant ident p)
     = unsettled p @ [(ident, \<lparr>previous = images (client p)\<rparr>)]
   \<and> trace (client (request_delete variant ident p))
     = trace (client p) @ [CancelQueries, DeleteRequest ident]
   \<and> images (client (request_delete variant ident p))
     = removeImage variant ident (images (client p))
   \<and> count_list (map fst (unsettled (request_delete variant ident p))) ident
     = count_list (map fst (unsettled p)) ident + 1"
proof -
  have "images (snd (onMutate variant ident qc)) = removeImage variant ident (images qc)" for qc
    by (cases variant; cases "images qc")
       (simp_all add: onMutate_def Let_def setQueryData_def removeImage_def images_cancelQueries)
  then show ?thesis
    by (simp add: request_delete_def start_eq)
qed

theorem delete_always_starts_witness:
  "count_list (map fst (unsettled (request_delete NextJs 2
      \<lparr>client = \<lparr>images = Some [], trace = []\<rparr>,
        unsettled = [(2, \<lparr>previous = Some [\<lparr>item_id = 2, title = ''b'', url = ''u2''\<rparr>]\<rparr>)]\<rparr>))) 2 = 2"
  using delete_always_starts [of NextJs 2
      "\<lparr>client = \<lparr>images = Some [], trace = []\<rparr>,
        unsettled = [(2, \<lparr>previous = Some [\<lparr>item_id = 2, title = ''b'', url = ''u2''\<rparr>]\<rparr>)]\<rparr>"]
  by simp

section \<open>Properties of fetching\<close>

text \<open>
  C5 as stated fails: the guard of part_000 looks at the body, not at its elements,
  so an array whose element is the number 1 is returned as the image list and the load
  succeeds at the first call; a load whose first body is no array is retried and
  succeeds when the second body is an array; next.js returns even a body that is no
  array.
\<close>

theorem malformed_elements_fetched_counterexample:
  "\<not> list_all ImageItem_shaped [JNum 1]
   \<and> fetchImages Part000 (Resolved (JArr [JNum 1])) = Inr (JArr [JNum 1])
   \<and> imagesQuery [Resolved (JArr [JNum 1])] = Some (Inr (JArr [JNum 1]), 1)
   \<and> imagesQuery [Resolved JNull, Resolved (JArr [])] = Some (Inr (JArr []), 2)
   \<and> fetchImages NextJs (Resolved (JObj [])) = Inr (JObj [])"
  by (simp add: fetchImages_def imagesQuery_def retry_def)

lemma retryer_three:
  "retryer retry queryFn 0 (r1 # r2 # r3 # replies) =
     (case queryFn r1 of
        Inr data \<Rightarrow> Some (Inr data, 1)
      | Inl e1 \<Rightarrow>
          (case queryFn r2 of
             Inr data \<Rightarrow> Some (Inr data, 2)
           | Inl e2 \<Rightarrow>
               (case queryFn r3 of
                  Inr data \<Rightarrow> Some (Inr data, 3)
                | Inl e3 \<Rightarrow> Some (Inl e3, 3))))"
  by (simp add: retry_def split: sum.splits)

text \<open>
  C5, amended. In part_000 a call of \<^verbatim>\<open>fetchImages\<close> fails with the plain
  \<^verbatim>\<open>Error('Images response is not an array')\<close> exactly when the body is not an array,
  whereas a failed request fails with the request's \<^verbatim>\<open>AxiosError\<close>, a different
  kind; a body that is an array is returned as it is, whatever its elements. A load
  retries such a call like any failed one, so the load itself fails with a plain
  \<^verbatim>\<open>Error\<close> exactly when its first two calls fail, for either reason, and the body
  of the third is not an array; the error is then the one above. In next.js
  \<^verbatim>\<open>fetchImages\<close> returns every body as it is.
\<close>

theorem fetchImages_array_guard:
  "(\<not> isArray data \<longrightarrow>
      fetchImages Part000 (Resolved data) = Inl (Error ''Images response is not an array''))
   \<and> (isArray data \<longrightarrow> fetchImages Part000 (Resolved data) = Inr data)
   \<and> fetchImages Part000 (Rejected message) = Inl (AxiosError message)
   \<and> fetchImages Part000 (Rejected message) \<noteq> fetchImages Part000 (Resolved data)
   \<and> fetchImages NextJs (Resolved data) = Inr data
   \<and> (imagesQuery replies = Some (Inl (Error msg), calls) \<longleftrightarrow>
        msg = ''Images response is not an array'' \<and> calls = 3 \<and> 3 \<le> length replies
        \<and> isl (fetchImages Part000 (replies ! 0)) \<and> isl (fetchImages Part000 (replies ! 1))
        \<and> (\<exists>body. replies ! 2 = Resolved body \<and> \<not> isArray body))"
proof -
  have third: "(fetchImages Part000 r = Inl (Error m)) \<longleftrightarrow>
      (m = ''Images response is not an array'' \<and> (\<exists>body. r = Resolved body \<and> \<not> isArray body))"
    for r m
    by (cases r) (auto simp: fetchImages_def)
  have load: "imagesQuery replies = Some (Inl (Error msg), calls) \<longleftrightarrow>
        msg = ''Images response is not an array'' \<and> calls = 3 \<and> 3 \<le> length replies
        \<and> isl (fetchImages Part000 (replies ! 0)) \<and> isl (fetchImages Part000 (replies ! 1))
        \<and> (\<exists>body. replies ! 2 = Resolved body \<and> \<not> isArray body)"
  proof (cases replies)
    case Nil
    then show ?thesis by (simp add: imagesQuery_def)
  next
    case one: (Cons r1 rest1)
    show ?thesis
    proof (cases rest1)
      case Nil
      with one show ?thesis
        by (cases "fetchImages Part000 r1") (simp_all add: imagesQuery_def retry_def)
    next
      case two: (Cons r2 rest2)
      show ?thesis
      proof (cases rest2)
        case Nil
        with one two show ?thesis
          by (cases "fetchImages Part000 r1"; cases "fetchImages Part000 r2")
             (simp_all add: imagesQuery_def retry_def)
      next
        case (Cons r3 rest3)
        with one two have replies: "replies = r1 # r2 # r3 # rest3" by simp
        show ?thesis
          unfolding replies imagesQuery_def retryer_three
          using third [of r3 msg]
          by (cases "fetchImages Part000 r1"; cases "fetchImages Part000 r2";
              cases "fetchImages Part000 r3") auto
      qed
    qed
  qed
  have "fetchImages NextJs (Resolved data) = Inr data"
    by (simp add: fetchImages_def)
  with load show ?thesis
    by (simp add: fetchImages_def)
qed

theorem fetchImages_array_guard_witness:
  "\<not> isArray (JObj [(''error'', JStr ''busy'')])
   \<and> fetchImages Part000 (Resolved (JObj [(''error'', JStr ''busy'')]))
       = Inl (Error ''Images response is not an array'')
   \<and> isArray (JArr [])
   \<and> fetchImages Part000 (Resolved (JArr [])) = Inr (JArr [])
   \<and> imagesQuery [Rejected ''Network Error'', Resolved JNull,
        Resolved (JObj [(''error'', JStr ''busy'')])]
       = Some (Inl (Error ''Images response is not an array''), 3)
   \<and> imagesQuery [Resolved JNull, Resolved (JArr []), Resolved (JArr [])]
       \<noteq> Some (Inl (Error ''Images response is not an array''), 3)"
proof -
  let ?busy = "JObj [(''error'', JStr ''busy'')]"
  note guard = fetchImages_array_guard [where data = ?busy and message = "[]"
      and replies = "[Rejected ''Network Error'', Resolved JNull, Resolved ?busy]"
      and msg = "''Images response is not an array''" and calls = 3]
  note passed = fetchImages_array_guard [where data = "JArr []" and message = "[]"
      and replies = "[Resolved JNull, Resolved (JArr []), Resolved (JArr [])]"
      and msg = "''Images response is not an array''" and calls = 3]
  have one: "fetchImages Part000 (Resolved ?busy) = Inl (Error ''Images response is not an array'')"
    using guard by simp
  have two: "fetchImages Part000 (Resolved (JArr [])) = Inr (JArr [])"
    using passed by simp
  have three: "imagesQuery [Rejected ''Network Error'', Resolved JNull, Resolved ?busy]
       = Some (Inl (Error ''Images response is not an array''), 3)"
    using guard by (simp add: fetchImages_def)
  have four: "imagesQuery [Resolved JNull, Resolved (JArr []), Resolved (JArr [])]
       \<noteq> Some (Inl (Error ''Images response is not an array''), 3)"
    using passed by (simp add: fetchImages_def)
  from one two three four show ?thesis by simp
qed

text \<open>
  C6 as stated fails in its second half: the retry predicate does not look at the
  error, so a load whose body is not an array is fetched three times.
\<close>

theorem validation_failure_retried_counterexample:
  "imagesQuery [Resolved (JObj []), Resolved (JObj []), Resolved (JObj [])]
     = Some (Inl (Error ''Images response is not an array''), 3)"
  by (simp add: imagesQuery_def retry_def fetchImages_def)

text \<open>
  C6, amended. A load of part_000 retries a failure of either kind, a failed request
  or a body that is not an array, as long as fewer than two failures came before it:
  the retry decision is the same for every error, a load calls \<^verbatim>\<open>fetchImages\<close> once
  more than the number of failures at the head of the replies but never more than
  three times (two retries), and it ends once three replies are there.
\<close>

theorem load_retries_any_failure_twice:
  assumes "3 \<le> length replies"
  shows "retry count err = retry count err'
       \<and> (\<exists>result calls. imagesQuery replies = Some (result, calls)
            \<and> calls = min 3 (Suc (length (takeWhile (\<lambda>r. isl (fetchImages Part000 r)) replies)))
            \<and> calls - 1 \<le> 2)"
proof -
  from assms obtain r1 r2 r3 rest where replies: "replies = r1 # r2 # r3 # rest"
    by (cases replies; cases "tl replies"; cases "tl (tl replies)") auto
  have "\<exists>result calls. imagesQuery replies = Some (result, calls)
            \<and> calls = min 3 (Suc (length (takeWhile (\<lambda>r. isl (fetchImages Part000 r)) replies)))
            \<and> calls - 1 \<le> 2"
    unfolding imagesQuery_def replies retryer_three
    by (cases "fetchImages Part000 r1"; cases "fetchImages Part000 r2";
        cases "fetchImages Part000 r3") simp_all
  then show ?thesis by (simp add: retry_def)
qed

theorem load_retries_any_failure_twice_witness:
  "imagesQuery [Rejected ''timeout of 8000ms exceeded'', Resolved JNull, Resolved (JArr [])]
     = Some (Inr (JArr []), 3)"
proof -
  let ?replies = "[Rejected ''timeout of 8000ms exceeded'', Resolved JNull, Resolved (JArr [])]"
  have "3 \<le> length ?replies" by simp
  from load_retries_any_failure_twice [OF this, of 0 "Error []" "Error []"]
  obtain result calls where q: "imagesQuery ?replies = Some (result, calls)"
    by blast
  moreover have "imagesQuery ?replies = Some (Inr (JArr []), 3)"
    by (simp add: imagesQuery_def retry_def fetchImages_def)
  ultimately show ?thesis by simp
qed

section \<open>Properties of the annotation operations\<close>

lemma counterRef_addAnnotation: "counterRef (addAnnotation u h) = Suc (counterRef h)"
  by (simp add: addAnnotation_def Let_def)

lemma annotations_addAnnotation:
  "annotations (addAnnotation u h) =
     annotations h @
     [\<lparr>ann_id = u, ann_x = 50 + 6 * (int (counterRef h) + 1),
       ann_y = 50 + 6 * (int (counterRef h) + 1), ann_width = 160, ann_height = 100\<rparr>]"
  by (simp add: addAnnotation_def Let_def)

lemma counterRef_adds:
  "counterRef (foldl (\<lambda>h u. addAnnotation u h) h0 uuids) = counterRef h0 + length uuids"
  by (induction uuids arbitrary: h0) (simp_all add: counterRef_addAnnotation)

lemma xs_adds:
  "map ann_x (annotations (foldl (\<lambda>h u. addAnnotation u h) h0 uuids)) =
     map ann_x (annotations h0) @
     map (\<lambda>k. 50 + 6 * (int (counterRef h0) + int k + 1)) [0..<length uuids]"
  by (induction uuids rule: rev_induct)
     (simp_all add: annotations_addAnnotation counterRef_adds)

lemma ys_adds:
  "map ann_y (annotations (foldl (\<lambda>h u. addAnnotation u h) h0 uuids)) =
     map ann_y (annotations h0) @
     map (\<lambda>k. 50 + 6 * (int (counterRef h0) + int k + 1)) [0..<length uuids]"
  by (induction uuids rule: rev_induct)
     (simp_all add: annotations_addAnnotation counterRef_adds)

text \<open>
  C8 as stated fails for next.js: its \<^verbatim>\<open>addAnnotation\<close> places every new annotation at
  (60, 60), so on an empty set the second annotation lies exactly on the first.
\<close>

theorem add_geometry_counterexample:
  "ann_x (addAnnotation_next ''2-0.7'' ''#00ff00'' (addAnnotation_next ''1-0.3'' ''#ff0000'' []) ! 1)
     = ann_x (addAnnotation_next ''2-0.7'' ''#00ff00'' (addAnnotation_next ''1-0.3'' ''#ff0000'' []) ! 0)
   \<and> ann_y (addAnnotation_next ''2-0.7'' ''#00ff00'' (addAnnotation_next ''1-0.3'' ''#ff0000'' []) ! 1)
     = ann_y (addAnnotation_next ''2-0.7'' ''#00ff00'' (addAnnotation_next ''1-0.3'' ''#ff0000'' []) ! 0)"
  by (simp add: addAnnotation_next_def)

text \<open>
  C8, amended. In part_000 the geometry follows the order of creation: the \<open>k\<close>-th
  annotation added since the hook was mounted has \<open>x = y = 50 + 6k\<close>, so each new
  annotation lies 6 to the right of and 6 below the one added before it, whatever the
  state. In next.js every new annotation has \<open>x = y = 60\<close>.
\<close>

theorem add_offsets_by_creation_order:
  "map ann_x (annotations (foldl (\<lambda>h u. addAnnotation u h) useAnnotations uuids))
     = map (\<lambda>k. 50 + 6 * (int k + 1)) [0..<length uuids]
   \<and> map ann_y (annotations (foldl (\<lambda>h u. addAnnotation u h) useAnnotations uuids))
     = map (\<lambda>k. 50 + 6 * (int k + 1)) [0..<length uuids]
   \<and> ann_x (last (annotations (addAnnotation u2 (addAnnotation u1 h))))
     = ann_x (last (annotations (addAnnotation u1 h))) + 6
   \<and> ann_y (last (annotations (addAnnotation u2 (addAnnotation u1 h))))
     = ann_y (last (annotations (addAnnotation u1 h))) + 6
   \<and> ann_x (last (addAnnotation_next fresh colour prev)) = 60
   \<and> ann_y (last (addAnnotation_next fresh colour prev)) = 60"
  by (simp add: xs_adds ys_adds useAnnotations_def annotations_addAnnotation
      counterRef_addAnnotation addAnnotation_next_def)

theorem add_offsets_by_creation_order_witness:
  "map ann_x (annotations (addAnnotation ''u2'' (addAnnotation ''u1'' useAnnotations))) = [56, 62]
   \<and> map ann_y (annotations (addAnnotation ''u2'' (addAnnotation ''u1'' useAnnotations))) = [56, 62]"
  using add_offsets_by_creation_order [of "[''u1'', ''u2'']"]
  by (simp add: upt_rec)

text \<open>
  The ids a hook holds after adds are the texts the platform supplied, one annotation
  for each add and in the order of the adds: they are pairwise distinct exactly when
  the supplied texts are.
\<close>

lemma ids_of_adds:
  "map ann_id (annotations (foldl (\<lambda>h u. addAnnotation u h) h0 uuids))
     = map ann_id (annotations h0) @ uuids"
  by (induction uuids rule: rev_induct) (simp_all add: annotations_addAnnotation)

lemma ids_of_adds_next:
  "map ann_id (foldl (\<lambda>anns (fresh, colour). addAnnotation_next fresh colour anns) prev adds)
     = map ann_id prev @ map fst adds"
  by (induction adds rule: rev_induct) (simp_all add: addAnnotation_next_def split_beta)

text \<open>
  C10. Ending a drag of the rectangle of an annotation: when no annotation has that
  id the list stays as it is; otherwise the list keeps its length and order, each
  entry with that id gets the new \<open>x\<close> and \<open>y\<close> and nothing else, every other entry is
  the same as before, and so all ids, widths, heights and colours are as before.
\<close>

theorem move_changes_only_position:
  "(ident \<notin> ann_id ` set prev \<longrightarrow> onDragEnd ident newX newY prev = prev)
   \<and> length (onDragEnd ident newX newY prev) = length prev
   \<and> (\<forall>i < length prev.
        (ann_id (prev ! i) = ident \<longrightarrow>
           onDragEnd ident newX newY prev ! i = (prev ! i)\<lparr>ann_x := newX, ann_y := newY\<rparr>)
        \<and> (ann_id (prev ! i) \<noteq> ident \<longrightarrow> onDragEnd ident newX newY prev ! i = prev ! i))
   \<and> map ann_id (onDragEnd ident newX newY prev) = map ann_id prev
   \<and> map ann_width (onDragEnd ident newX newY prev) = map ann_width prev
   \<and> map ann_height (onDragEnd ident newX newY prev) = map ann_height prev
   \<and> map ann_color (onDragEnd ident newX newY prev) = map ann_color prev"
proof -
  have "onDragEnd ident newX newY prev = prev" if "ident \<notin> ann_id ` set prev"
    using that unfolding onDragEnd_def by (induction prev) auto
  then show ?thesis
    by (simp add: onDragEnd_def)
qed

theorem move_changes_only_position_witness:
  "onDragEnd ''b'' 300 40
     [\<lparr>ann_id = ''a'', ann_x = 60, ann_y = 60, ann_width = 160, ann_height = 100, ann_color = ''#ff1744''\<rparr>,
      \<lparr>ann_id = ''b'', ann_x = 60, ann_y = 60, ann_width = 160, ann_height = 100, ann_color = ''#2979ff''\<rparr>] ! 1
     = \<lparr>ann_id = ''b'', ann_x = 300, ann_y = 40, ann_width = 160, ann_height = 100, ann_color = ''#2979ff''\<rparr>
   \<and> onDragEnd ''b'' 300 40
     [\<lparr>ann_id = ''a'', ann_x = 60, ann_y = 60, ann_width = 160, ann_height = 100, ann_color = ''#ff1744''\<rparr>,
      \<lparr>ann_id = ''b'', ann_x = 60, ann_y = 60, ann_width = 160, ann_height = 100, ann_color = ''#2979ff''\<rparr>] ! 0
     = \<lparr>ann_id = ''a'', ann_x = 60, ann_y = 60, ann_width = 160, ann_height = 100, ann_color = ''#ff1744''\<rparr>
   \<and> onDragEnd ''c'' 300 40
     [\<lparr>ann_id = ''a'', ann_x = 60, ann_y = 60, ann_width = 160, ann_height = 100, ann_color = ''#ff1744''\<rparr>,
      \<lparr>ann_id = ''b'', ann_x = 60, ann_y = 60, ann_width = 160, ann_height = 100, ann_color = ''#2979ff''\<rparr>]
     = [\<lparr>ann_id = ''a'', ann_x = 60, ann_y = 60, ann_width = 160, ann_height = 100, ann_color = ''#ff1744''\<rparr>,
      \<lparr>ann_id = ''b'', ann_x = 60, ann_y = 60, ann_width = 160, ann_height = 100, ann_color = ''#2979ff''\<rparr>]"
proof -
  let ?a = "\<lparr>ann_id = ''a'', ann_x = 60, ann_y = 60, ann_width = 160, ann_height = 100, ann_color = ''#ff1744''\<rparr>"
  let ?b = "\<lparr>ann_id = ''b'', ann_x = 60, ann_y = 60, ann_width = 160, ann_height = 100, ann_color = ''#2979ff''\<rparr>"
  have moved: "\<forall>i < length [?a, ?b].
        (ann_id ([?a, ?b] ! i) = ''b'' \<longrightarrow>
           onDragEnd ''b'' 300 40 [?a, ?b] ! i = ([?a, ?b] ! i)\<lparr>ann_x := 300, ann_y := 40\<rparr>)
        \<and> (ann_id ([?a, ?b] ! i) \<noteq> ''b'' \<longrightarrow> onDragEnd ''b'' 300 40 [?a, ?b] ! i = [?a, ?b] ! i)"
    using move_changes_only_position [of "''b''" "[?a, ?b]" 300 40] by blast
  have absent: "''c'' \<notin> ann_id ` set [?a, ?b] \<longrightarrow> onDragEnd ''c'' 300 40 [?a, ?b] = [?a, ?b]"
    using move_changes_only_position [of "''c''" "[?a, ?b]" 300 40] by blast
  from moved have "onDragEnd ''b'' 300 40 [?a, ?b] ! 1 = ?b\<lparr>ann_x := 300, ann_y := 40\<rparr>"
    by simp
  moreover from moved have "onDragEnd ''b'' 300 40 [?a, ?b] ! 0 = ?a"
    by simp
  moreover from absent have "onDragEnd ''c'' 300 40 [?a, ?b] = [?a, ?b]"
    by simp
  ultimately show ?thesis by simp
qed

section \<open>Reading back what was written\<close>

text \<open>
  \<open>JSON_parse\<close> gives back every list of annotations from the text \<open>JSON_stringify\<close>
  writes for it: digits, quoted strings, one annotation, the elements of the array.
\<close>

lemma expect_append: "expect p (p @ r) = Some r"
  by (induction p) simp_all

lemma below_10: "(k::nat) < 10 \<Longrightarrow> k \<in> {0, 1, 2, 3, 4, 5, 6, 7, 8, 9}"
  by simp arith

lemma below_16: "(k::nat) < 16 \<Longrightarrow> k \<in> {0, 1, 2, 3, 4, 5, 6, 7, 8, 9, 10, 11, 12, 13, 14, 15}"
  by simp arith

lemma digit_value_digit: "k < 10 \<Longrightarrow> digit_value (digit k) = Some k"
  by (drule below_10) (auto simp: digit_value_def digit_def)

lemma hex_value_digit: "k < 16 \<Longrightarrow> hex_value (digit k) = Some k"
  by (drule below_16) (auto simp: hex_value_def digit_value_def digit_def)

lemma parse_digits_stops: "stops r \<Longrightarrow> parse_digits acc r = (acc, r)"
  by (cases r) (simp_all add: stops_def)

lemma parse_digits_digits:
  "parse_digits acc (digits n @ r) = parse_digits (acc * 10 ^ length (digits n) + n) r"
proof (induction n arbitrary: acc r rule: digits.induct)
  case (1 n)
  show ?case
  proof (cases "n < 10")
    case True
    then show ?thesis
      by (simp add: digits.simps [of n] digit_value_digit mult.commute)
  next
    case False
    have "parse_digits acc (digits n @ r)
        = parse_digits acc (digits (n div 10) @ digit (n mod 10) # r)"
      using False by (simp add: digits.simps [of n])
    also have "\<dots> = parse_digits (acc * 10 ^ length (digits (n div 10)) + n div 10)
        (digit (n mod 10) # r)"
      using False by (rule "1.IH")
    also have "\<dots> = parse_digits (10 * (acc * 10 ^ length (digits (n div 10)) + n div 10) + n mod 10) r"
      by (simp add: digit_value_digit)
    also have "10 * (acc * 10 ^ length (digits (n div 10)) + n div 10) + n mod 10
        = acc * 10 ^ length (digits n) + n"
      using False by (simp add: digits.simps [of n] algebra_simps)
    finally show ?thesis .
  qed
qed

lemma digits_head:
  "\<exists>d cs. digits n = digit d # cs \<and> d < 10 \<and> (0 < n \<longrightarrow> 0 < d)"
proof (induction n rule: digits.induct)
  case (1 n)
  show ?case
  proof (cases "n < 10")
    case True
    then show ?thesis by (auto simp: digits.simps [of n] intro!: exI [of _ n])
  next
    case False
    with "1.IH" obtain d cs where "digits (n div 10) = digit d # cs" "d < 10" "0 < d"
      by (auto simp: div_greater_zero_iff)
    with False show ?thesis
      by (intro exI [of _ d] exI [of _ "cs @ [digit (n mod 10)]"])
         (simp add: digits.simps [of n])
  qed
qed

lemma parse_nat_digits:
  assumes "stops r"
  shows "parse_nat (digits n @ r) = Some (n, r)"
proof -
  obtain d cs where ds: "digits n = digit d # cs" and d: "d < 10" "0 < n \<longrightarrow> 0 < d"
    using digits_head by blast
  have all: "parse_digits 0 (digits n @ r) = (n, r)"
    by (simp add: parse_digits_digits parse_digits_stops assms)
  show ?thesis
  proof (cases "n = 0")
    case True
    then have "digits n = [digit 0]" by (simp add: digits.simps [of 0])
    with True assms show ?thesis
      by (cases r) (simp_all add: parse_nat_def digit_value_digit stops_def)
  next
    case False
    with d have "0 < d" by simp
    moreover have "parse_digits d (cs @ r) = (n, r)"
      using all d by (simp add: ds digit_value_digit)
    ultimately show ?thesis
      using d by (simp add: parse_nat_def ds digit_value_digit)
  qed
qed

lemma digit_not_minus: "d < 10 \<Longrightarrow> digit d \<noteq> CHR ''-''"
  by (drule below_10) (auto simp: digit_def)

lemma parse_number_toString:
  assumes "stops r"
  shows "parse_number (Number_toString i @ r) = Some (i, r)"
proof (cases "i < 0")
  case True
  then show ?thesis
    by (simp add: parse_number_def Number_toString_def parse_nat_digits [OF assms])
next
  case False
  obtain d cs where ds: "digits (nat i) = digit d # cs" and d: "d < 10"
    using digits_head by blast
  have "parse_nat (digit d # cs @ r) = Some (nat i, r)"
    using parse_nat_digits [OF assms, of "nat i"] by (simp add: ds)
  with False d show ?thesis
    by (simp add: parse_number_def Number_toString_def ds digit_not_minus)
qed


lemma hex4_escape:
  assumes "(of_char c :: nat) < 32"
  shows "hex4 (CHR ''0'') (CHR ''0'') (digit (of_char c div 16)) (digit (of_char c mod 16)) = Some c"
proof -
  have zero: "hex_value (CHR ''0'') = Some 0"
    by (simp add: hex_value_def digit_value_def)
  have high: "hex_value (digit (of_char c div 16)) = Some (of_char c div 16)"
    using assms by (intro hex_value_digit) simp
  have low: "hex_value (digit (of_char c mod 16)) = Some (of_char c mod 16)"
    by (intro hex_value_digit) simp
  have "char_of (16 * (of_char c div 16) + of_char c mod 16 :: nat) = c"
    by simp
  with zero high low show ?thesis
    by (simp add: hex4_def)
qed

lemma parse_chars_escape:
  "parse_chars (escape c @ t) = map_option (\<lambda>(v, r). (c # v, r)) (parse_chars t)"
proof -
  consider (quote) "c = dq" | (backslash) "c = bs"
    | (short) "c \<in> {CHR 0x08, CHR 0x09, CHR 0x0A, CHR 0x0C, CHR 0x0D}"
    | (control) "c \<noteq> dq" "c \<noteq> bs" "c \<notin> {CHR 0x08, CHR 0x09, CHR 0x0A, CHR 0x0C, CHR 0x0D}"
        "(of_char c :: nat) < 32"
    | (plain) "c \<noteq> dq" "c \<noteq> bs" "\<not> (of_char c :: nat) < 32"
    by fastforce
  then show ?thesis
  proof cases
    case quote
    then show ?thesis by (simp add: escape_def dq_def bs_def unescape_def)
  next
    case backslash
    then show ?thesis by (simp add: escape_def dq_def bs_def unescape_def)
  next
    case short
    then show ?thesis by (auto simp: escape_def dq_def bs_def unescape_def)
  next
    case control
    then have "escape c = [bs, CHR ''u'', CHR ''0'', CHR ''0'',
        digit (of_char c div 16), digit (of_char c mod 16)]"
      by (simp add: escape_def)
    then show ?thesis
      using hex4_escape [OF control(4)] by (simp add: dq_def bs_def)
  next
    case plain
    then have "escape c = [c]"
      by (auto simp: escape_def)
    with plain show ?thesis by simp
  qed
qed

lemma parse_chars_quoted: "parse_chars (concat (map escape s) @ dq # r) = Some (s, r)"
  by (induction s) (simp_all add: parse_chars_escape)

lemma parse_string_quoted: "parse_string (QuoteJSONString s @ r) = Some (s, r)"
  by (simp add: parse_string_def QuoteJSONString_def parse_chars_quoted)


lemma stops_comma: "stops (CHR '','' # r)"
  by (simp add: stops_def digit_value_def)

lemma parse_annotation_stringify:
  "parse_annotation (stringify_annotation a @ r) = Some (a, r)"
  by (simp add: parse_annotation_def stringify_annotation_def entry_def QuoteJSONString_def
      escape_def parse_string_def parse_chars_quoted [unfolded dq_def] parse_number_toString
      stops_comma dq_def bs_def)

lemma parse_elements_join:
  "parse_elements (join (map stringify_annotation (a # as)) @ CHR '']'' # r) = Some (a # as, r)"
proof (induction as arbitrary: a)
  case Nil
  show ?case
    by (subst parse_elements.simps) (simp add: parse_annotation_stringify)
next
  case (Cons b bs)
  have "parse_elements (stringify_annotation a @
          CHR '','' # join (map stringify_annotation (b # bs)) @ CHR '']'' # r)
      = map_option (\<lambda>(as, r''). (a # as, r''))
          (parse_elements (join (map stringify_annotation (b # bs)) @ CHR '']'' # r))"
    by (subst parse_elements.simps) (simp add: parse_annotation_stringify)
  with Cons.IH [of b] show ?case
    by simp
qed

lemma stringify_annotation_head: "\<exists>t. stringify_annotation a = CHR ''{'' # t"
  by (simp add: stringify_annotation_def)

lemma JSON_round_trip: "JSON_parse (JSON_stringify anns) = Inr anns"
proof (cases anns)
  case Nil
  then show ?thesis by (simp add: JSON_parse_def JSON_stringify_def)
next
  case (Cons a as)
  obtain t where t: "stringify_annotation a = CHR ''{'' # t"
    using stringify_annotation_head by blast
  have "join (map stringify_annotation (a # as)) \<noteq> []"
    by (cases as) (simp_all add: t)
  then obtain u where u: "join (map stringify_annotation (a # as)) = CHR ''{'' # u"
    by (cases as) (simp_all add: t)
  have stored_text: "JSON_stringify (a # as) = CHR ''['' # CHR ''{'' # u @ '']''"
    using u by (simp add: JSON_stringify_def)
  have "parse_elements (CHR ''{'' # u @ '']'') = Some (a # as, [])"
    using parse_elements_join [of a as "[]"] u by simp
  then show ?thesis
    by (simp add: JSON_parse_def stored_text Cons)
qed

lemma JSON_stringify_not_empty: "JSON_stringify anns \<noteq> []"
  by (simp add: JSON_stringify_def)

section \<open>Properties of the stored annotations\<close>

lemma storage_after_setAnnotations:
  "localStorage (setAnnotations stringify imageId updater st) (storage_key imageId)
     = Some (stringify (annotations_next (setAnnotations stringify imageId updater st)))"
  by (simp add: setAnnotations_def Let_def persistEffect_def)

lemma storage_after_mount:
  "useAnnotations_next parse stringify imageId storage = Inr st \<Longrightarrow>
   localStorage st (storage_key imageId) = Some (stringify (annotations_next st))"
  by (auto simp: useAnnotations_next_def persistEffect_def split: sum.splits option.splits)

lemma storage_after_intents:
  "localStorage st0 (storage_key imageId) = Some (stringify (annotations_next st0)) \<Longrightarrow>
   localStorage (foldl (dispatch stringify imageId) st0 intents) (storage_key imageId)
     = Some (stringify (annotations_next (foldl (dispatch stringify imageId) st0 intents)))"
  by (induction intents rule: rev_induct)
     (simp_all add: dispatch_def storage_after_setAnnotations)

lemma mount_on_stored:
  assumes "storage (storage_key imageId) = Some saved" and "saved \<noteq> []"
    and "parse saved = Inr v"
  shows "map_sum (\<lambda>e. e) annotations_next (useAnnotations_next parse stringify imageId storage)
     = Inr v"
  using assms by (simp add: useAnnotations_next_def loadEffect_def)

text \<open>
  C3 as stated fails for part_000: its hook has no storage, so an annotation added
  there is gone when the hook is mounted anew, which starts from the empty list.
\<close>

theorem not_persisted_counterexample:
  "annotations (addAnnotation ''u1'' useAnnotations)
     = [\<lparr>ann_id = ''u1'', ann_x = 56, ann_y = 56, ann_width = 160, ann_height = 100\<rparr>]
   \<and> annotations useAnnotations = []"
  by (simp add: addAnnotation_def useAnnotations_def)

text \<open>
  C3, amended. In next.js, once the hook is mounted for an image, after every sequence
  of adds, drags and removals the entry of that image in the storage is the text of
  the annotations now in memory: each change of the state is followed by a write of
  the whole list. Mounting the hook anew on that storage (a restart) therefore yields
  a list equal to the last one in memory, provided the platform's JSON functions give
  that list back from its own text.
\<close>

theorem persistence_round_trip:
  assumes "useAnnotations_next parse stringify imageId storage0 = Inr st0"
    and "st = foldl (dispatch stringify imageId) st0 intents"
    and "stringify (annotations_next st) \<noteq> []"
    and "parse (stringify (annotations_next st)) = Inr (annotations_next st)"
  shows "localStorage st (storage_key imageId) = Some (stringify (annotations_next st))
       \<and> map_sum (\<lambda>e. e) annotations_next
           (useAnnotations_next parse stringify imageId (localStorage st))
         = Inr (annotations_next st)"
proof -
  have stored: "localStorage st (storage_key imageId) = Some (stringify (annotations_next st))"
    unfolding assms(2)
    by (rule storage_after_intents) (rule storage_after_mount [OF assms(1)])
  have "map_sum (\<lambda>e. e) annotations_next
           (useAnnotations_next parse stringify imageId (localStorage st))
         = Inr (annotations_next st)"
    using stored assms(3) assms(4) by (rule mount_on_stored)
  with stored show ?thesis
    by (intro conjI)
qed

theorem persistence_round_trip_witness:
  "map_sum (\<lambda>e. e) annotations_next
     (useAnnotations_next JSON_parse JSON_stringify 1
       (localStorage
         (foldl (dispatch JSON_stringify 1)
           \<lparr>annotations_next = [], localStorage = [''ann_1'' \<mapsto> ''[]'']\<rparr>
           [AddAnnotation ''1-0.3'' ''#ff0000'', AddAnnotation ''2-0.7'' ''#00ff00'',
            DragAnnotation ''1-0.3'' 300 40, DismissAnnotation ''2-0.7''])))
   = Inr [\<lparr>ann_id = ''1-0.3'', ann_x = 300, ann_y = 40, ann_width = 160, ann_height = 100,
           ann_color = ''#ff0000''\<rparr>]"
proof -
  let ?st0 = "\<lparr>annotations_next = [], localStorage = [''ann_1'' \<mapsto> ''[]'']\<rparr>"
  let ?intents = "[AddAnnotation ''1-0.3'' ''#ff0000'', AddAnnotation ''2-0.7'' ''#00ff00'',
            DragAnnotation ''1-0.3'' 300 40, DismissAnnotation ''2-0.7'']"
  let ?final = "[\<lparr>ann_id = ''1-0.3'', ann_x = 300, ann_y = 40, ann_width = 160, ann_height = 100,
           ann_color = ''#ff0000''\<rparr>]"
  have key: "storage_key 1 = ''ann_1''"
    by (simp add: storage_key_def Number_toString_def digits.simps digit_def)
  have empty: "JSON_stringify [] = ''[]''"
    by (simp add: JSON_stringify_def)
  have mounted: "useAnnotations_next JSON_parse JSON_stringify 1 Map.empty = Inr ?st0"
    by (simp add: useAnnotations_next_def loadEffect_def persistEffect_def key empty)
  have last_state: "annotations_next (foldl (dispatch JSON_stringify 1) ?st0 ?intents) = ?final"
    by (simp add: dispatch_def setAnnotations_def Let_def addAnnotation_next_def onDragEnd_def
        removeAnnotation_def)
  have nonempty: "JSON_stringify ?final \<noteq> []"
    by (simp add: JSON_stringify_def)
  have round_trip: "JSON_parse (JSON_stringify ?final) = Inr ?final"
    by code_simp
  from persistence_round_trip [OF mounted refl, of ?intents]
  show ?thesis
    unfolding last_state using nonempty round_trip by simp
qed

text \<open>
  With the two functions above in the place of the platform's, the proviso holds for
  every list, so the restart gives back the list in memory after every sequence of
  changes.
\<close>

lemma restart_gives_back_JSON:
  assumes "useAnnotations_next JSON_parse JSON_stringify imageId storage0 = Inr st0"
  shows "map_sum (\<lambda>e. e) annotations_next
           (useAnnotations_next JSON_parse JSON_stringify imageId
             (localStorage (foldl (dispatch JSON_stringify imageId) st0 intents)))
         = Inr (annotations_next (foldl (dispatch JSON_stringify imageId) st0 intents))"
proof -
  have "localStorage (foldl (dispatch JSON_stringify imageId) st0 intents) (storage_key imageId)
      = Some (JSON_stringify (annotations_next (foldl (dispatch JSON_stringify imageId) st0 intents)))"
    by (rule storage_after_intents) (rule storage_after_mount [OF assms])
  then show ?thesis
    using JSON_stringify_not_empty JSON_round_trip by (rule mount_on_stored)
qed

text \<open>
  C4 as stated fails in both halves. The first effect calls \<^verbatim>\<open>JSON.parse\<close> with no
  handler around it: with the stored text of one annotation cut after its first 24
  characters, mounting the hook ends with the syntax error instead of an empty list.
  And the effect leaves the state alone when nothing is stored: a mounted hook that
  holds one annotation of image 1 and goes on with image 2, for which the storage has
  no entry, holds that annotation afterwards, not the empty list.
\<close>

theorem parse_failure_throws_counterexample:
  "useAnnotations_next JSON_parse JSON_stringify 1
     [''ann_1'' \<mapsto> take 24 (JSON_stringify
        [\<lparr>ann_id = ''1-0.3'', ann_x = 60, ann_y = 60, ann_width = 160, ann_height = 100,
          ann_color = ''#ff0000''\<rparr>])]
   = Inl SyntaxError
   \<and> localStorage
       (dispatch JSON_stringify 1
         \<lparr>annotations_next = [], localStorage = [''ann_1'' \<mapsto> ''[]'']\<rparr>
         (AddAnnotation ''1-0.3'' ''#ff0000'')) ''ann_2'' = None
   \<and> map_sum (\<lambda>e. e) annotations_next
       (imageId_changes JSON_parse JSON_stringify 2
         (dispatch JSON_stringify 1
           \<lparr>annotations_next = [], localStorage = [''ann_1'' \<mapsto> ''[]'']\<rparr>
           (AddAnnotation ''1-0.3'' ''#ff0000'')))
     = Inr [\<lparr>ann_id = ''1-0.3'', ann_x = 60, ann_y = 60, ann_width = 160, ann_height = 100,
             ann_color = ''#ff0000''\<rparr>]"
proof -
  let ?payload = "take 24 (JSON_stringify
        [\<lparr>ann_id = ''1-0.3'', ann_x = 60, ann_y = 60, ann_width = 160, ann_height = 100,
          ann_color = ''#ff0000''\<rparr>])"
  have k1: "storage_key 1 = ''ann_1''"
    by (simp add: storage_key_def Number_toString_def digits.simps digit_def)
  have k2: "storage_key 2 = ''ann_2''"
    by (simp add: storage_key_def Number_toString_def digits.simps digit_def)
  have payload_text: "?payload \<noteq> []"
    by code_simp
  have refused: "JSON_parse ?payload = Inl SyntaxError"
    by code_simp
  have thrown: "useAnnotations_next JSON_parse JSON_stringify 1 [''ann_1'' \<mapsto> ?payload]
      = Inl SyntaxError"
    by (simp only: useAnnotations_next_def loadEffect_def k1 fun_upd_same option.case payload_text
        if_False refused sum.case)
  have kept: "map_sum (\<lambda>e. e) annotations_next
       (imageId_changes JSON_parse JSON_stringify 2
         (dispatch JSON_stringify 1
           \<lparr>annotations_next = [], localStorage = [''ann_1'' \<mapsto> ''[]'']\<rparr>
           (AddAnnotation ''1-0.3'' ''#ff0000'')))
     = Inr [\<lparr>ann_id = ''1-0.3'', ann_x = 60, ann_y = 60, ann_width = 160, ann_height = 100,
             ann_color = ''#ff0000''\<rparr>]"
    by (simp add: imageId_changes_def loadEffect_def dispatch_def setAnnotations_def Let_def
        persistEffect_def addAnnotation_next_def k1 k2)
  have no_entry: "localStorage
       (dispatch JSON_stringify 1
         \<lparr>annotations_next = [], localStorage = [''ann_1'' \<mapsto> ''[]'']\<rparr>
         (AddAnnotation ''1-0.3'' ''#ff0000'')) ''ann_2'' = None"
    by (simp add: dispatch_def setAnnotations_def Let_def persistEffect_def k1)
  from thrown no_entry kept show ?thesis
    by (intro conjI)
qed

text \<open>
  C4, amended. When the hook is mounted for an image for which the storage has no
  entry, or an empty text, it holds the empty list. Whenever the first effect runs, at
  the mount or when the image id of the mounted hook changes, on a stored text that
  is not empty and on which \<^verbatim>\<open>JSON.parse\<close> throws, the error leaves the effect: the
  mount, or the render with the new id, fails with it.
\<close>

theorem load_absent_or_malformed:
  "((storage (storage_key imageId) = None \<or> storage (storage_key imageId) = Some []) \<longrightarrow>
      map_sum (\<lambda>e. e) annotations_next
        (useAnnotations_next parse stringify imageId storage) = Inr [])
   \<and> (storage (storage_key imageId) = Some saved \<and> saved \<noteq> [] \<and> parse saved = Inl e \<longrightarrow>
      useAnnotations_next parse stringify imageId storage = Inl e)
   \<and> (localStorage st (storage_key imageId) = Some saved \<and> saved \<noteq> [] \<and> parse saved = Inl e \<longrightarrow>
      imageId_changes parse stringify imageId st = Inl e)"
  by (auto simp: useAnnotations_next_def imageId_changes_def loadEffect_def)

theorem load_absent_or_malformed_witness:
  "map_sum (\<lambda>e. e) annotations_next
     (useAnnotations_next JSON_parse JSON_stringify 7 Map.empty) = Inr []
   \<and> useAnnotations_next JSON_parse JSON_stringify 7 [''ann_7'' \<mapsto> ''[{''] = Inl SyntaxError
   \<and> imageId_changes JSON_parse JSON_stringify 7
       \<lparr>annotations_next = [], localStorage = [''ann_7'' \<mapsto> ''[{'']\<rparr> = Inl SyntaxError"
proof -
  let ?broken = "[''ann_7'' \<mapsto> ''[{'']"
  have k7: "storage_key 7 = ''ann_7''"
    by (simp add: storage_key_def Number_toString_def digits.simps digit_def)
  have refused: "JSON_parse ''[{'' = Inl SyntaxError"
    by code_simp
  have absent: "map_sum (\<lambda>e. e) annotations_next
     (useAnnotations_next JSON_parse JSON_stringify 7 Map.empty) = Inr []"
    using load_absent_or_malformed [where storage = Map.empty and imageId = 7
        and parse = JSON_parse and stringify = JSON_stringify]
    by simp
  note malformed = load_absent_or_malformed [where storage = ?broken and imageId = 7
        and saved = "''[{''" and parse = JSON_parse and e = SyntaxError
        and stringify = JSON_stringify
        and st = "\<lparr>annotations_next = [], localStorage = ?broken\<rparr>"]
  have at_mount: "useAnnotations_next JSON_parse JSON_stringify 7 ?broken = Inl SyntaxError"
    using malformed refused by (simp add: k7)
  have at_change: "imageId_changes JSON_parse JSON_stringify 7
       \<lparr>annotations_next = [], localStorage = ?broken\<rparr> = Inl SyntaxError"
    using malformed refused by (simp add: k7)
  from absent at_mount at_change show ?thesis
    by (intro conjI)
qed

end
